theory Spec2Isabelle
  imports Main "HOL-Library.Word"
begin

unbundle bit_operations_syntax

section \<open>Translation context (translationcontext.cpp)\<close>

text \<open>
  A \<^verbatim>\<open>QString\<close> is either null or holds characters; \<^verbatim>\<open>QString()\<close> is the null string,
  which is also empty. The encoding of the characters plays no role in this file.
\<close>

type_synonym qstring = "string option"

definition isNull :: "qstring \<Rightarrow> bool" where
  "isNull q = (case q of None \<Rightarrow> True | Some s \<Rightarrow> False)"

definition isEmpty :: "qstring \<Rightarrow> bool" where
  "isEmpty q = (case q of None \<Rightarrow> True | Some s \<Rightarrow> s = [])"

text \<open>
  \<^verbatim>\<open>s.toUtf8().constData()\<close>: the characters as a C string, which ends at the first NUL;
  a null string gives the empty C string.
\<close>

definition constData :: "qstring \<Rightarrow> string" where
  "constData q = (case q of None \<Rightarrow> [] | Some s \<Rightarrow> takeWhile (\<lambda>c. c \<noteq> CHR 0x00) s)"

text \<open>
  \<^verbatim>\<open>KLocalizedString\<close> belongs to the localization library, not to this repository. It is
  kept as the data the calls of this file hand to it: the domain, the optional context, the
  message, the optional plural form, and the arguments substituted so far, in order. An
  argument is a string (\<^verbatim>\<open>subs(const QString &)\<close>) or a number (\<^verbatim>\<open>subs(int)\<close>).
\<close>

datatype subsArg = SubsString string | SubsInt int

record KLocalizedString =
  kdomain :: string
  kctxt :: "string option"
  ksingular :: string
  kplural :: "string option"
  kargs :: "subsArg list"

definition ki18nd :: "string \<Rightarrow> string \<Rightarrow> KLocalizedString" where
  "ki18nd dmn msg =
     \<lparr>kdomain = dmn, kctxt = None, ksingular = msg, kplural = None, kargs = []\<rparr>"

definition ki18ndc :: "string \<Rightarrow> string \<Rightarrow> string \<Rightarrow> KLocalizedString" where
  "ki18ndc dmn ctx msg =
     \<lparr>kdomain = dmn, kctxt = Some ctx, ksingular = msg, kplural = None, kargs = []\<rparr>"

definition ki18ndp :: "string \<Rightarrow> string \<Rightarrow> string \<Rightarrow> KLocalizedString" where
  "ki18ndp dmn sing plur =
     \<lparr>kdomain = dmn, kctxt = None, ksingular = sing, kplural = Some plur, kargs = []\<rparr>"

definition ki18ndcp :: "string \<Rightarrow> string \<Rightarrow> string \<Rightarrow> string \<Rightarrow> KLocalizedString" where
  "ki18ndcp dmn ctx sing plur =
     \<lparr>kdomain = dmn, kctxt = Some ctx, ksingular = sing, kplural = Some plur, kargs = []\<rparr>"

definition subs :: "KLocalizedString \<Rightarrow> string \<Rightarrow> KLocalizedString" where
  "subs t s = t\<lparr>kargs := kargs t @ [SubsString s]\<rparr>"

definition subsInt :: "KLocalizedString \<Rightarrow> int \<Rightarrow> KLocalizedString" where
  "subsInt t n = t\<lparr>kargs := kargs t @ [SubsInt n]\<rparr>"

text \<open>
  What the file takes from outside: \<^verbatim>\<open>QString::toInt(&ok)\<close> (\<open>None\<close> when \<^verbatim>\<open>ok\<close> is false)
  and \<^verbatim>\<open>KLocalizedString::toString()\<close>, which looks the message up in the catalog of its
  domain, selects the plural form and fills the placeholders. Both are parameters.
\<close>

record l10n =
  toInt :: "string \<Rightarrow> int option"
  toString :: "KLocalizedString \<Rightarrow> string"

record TranslationContext =
  m_domain :: qstring

text \<open>
  One \<^verbatim>\<open>if (!paramN.isNull()) trMessage = trMessage.subs(paramN);\<close> statement, and the
  statement for \<^verbatim>\<open>param1\<close> of the plural calls, which tries \<^verbatim>\<open>toInt\<close> first.
\<close>

definition subsParam :: "qstring \<Rightarrow> KLocalizedString \<Rightarrow> KLocalizedString" where
  "subsParam p t = (if \<not> isNull p then (case p of None \<Rightarrow> t | Some s \<Rightarrow> subs t s) else t)"

definition subsNumberParam :: "l10n \<Rightarrow> qstring \<Rightarrow> KLocalizedString \<Rightarrow> KLocalizedString" where
  "subsNumberParam h p t =
     (if \<not> isNull p then
        (case p of
           None \<Rightarrow> t
         | Some s \<Rightarrow> (case toInt h s of Some num \<Rightarrow> subsInt t num | None \<Rightarrow> subs t s))
      else t)"

text \<open>
  A call returns the diagnostics it logged with \<^verbatim>\<open>qWarning()\<close> and its result string.
\<close>

type_synonym i18nResult = "string list \<times> qstring"

definition i18n ::
  "l10n \<Rightarrow> TranslationContext \<Rightarrow> qstring \<Rightarrow> qstring \<Rightarrow> qstring \<Rightarrow> qstring \<Rightarrow> qstring \<Rightarrow> qstring \<Rightarrow>
   qstring \<Rightarrow> qstring \<Rightarrow> qstring \<Rightarrow> qstring \<Rightarrow> qstring \<Rightarrow> i18nResult" where
  "i18n h this message param1 param2 param3 param4 param5 param6 param7 param8 param9 param10 =
     (if isNull message then ([''i18n() needs at least one parameter''], None)
      else
        let trMessage = ki18nd (constData (m_domain this)) (constData message);
            trMessage = subsParam param1 trMessage;
            trMessage = subsParam param2 trMessage;
            trMessage = subsParam param3 trMessage;
            trMessage = subsParam param4 trMessage;
            trMessage = subsParam param5 trMessage;
            trMessage = subsParam param6 trMessage;
            trMessage = subsParam param7 trMessage;
            trMessage = subsParam param8 trMessage;
            trMessage = subsParam param9 trMessage;
            trMessage = subsParam param10 trMessage
        in ([], Some (toString h trMessage)))"

definition i18nc ::
  "l10n \<Rightarrow> TranslationContext \<Rightarrow> qstring \<Rightarrow> qstring \<Rightarrow> qstring \<Rightarrow> qstring \<Rightarrow> qstring \<Rightarrow> qstring \<Rightarrow>
   qstring \<Rightarrow> qstring \<Rightarrow> qstring \<Rightarrow> qstring \<Rightarrow> qstring \<Rightarrow> qstring \<Rightarrow> i18nResult" where
  "i18nc h this ctx message param1 param2 param3 param4 param5 param6 param7 param8 param9
     param10 =
     (if isNull ctx \<or> isNull message then ([''i18nc() needs at least two arguments''], None)
      else
        let trMessage = ki18ndc (constData (m_domain this)) (constData ctx) (constData message);
            trMessage = subsParam param1 trMessage;
            trMessage = subsParam param2 trMessage;
            trMessage = subsParam param3 trMessage;
            trMessage = subsParam param4 trMessage;
            trMessage = subsParam param5 trMessage;
            trMessage = subsParam param6 trMessage;
            trMessage = subsParam param7 trMessage;
            trMessage = subsParam param8 trMessage;
            trMessage = subsParam param9 trMessage;
            trMessage = subsParam param10 trMessage
        in ([], Some (toString h trMessage)))"

definition i18np ::
  "l10n \<Rightarrow> TranslationContext \<Rightarrow> qstring \<Rightarrow> qstring \<Rightarrow> qstring \<Rightarrow> qstring \<Rightarrow> qstring \<Rightarrow> qstring \<Rightarrow>
   qstring \<Rightarrow> qstring \<Rightarrow> qstring \<Rightarrow> qstring \<Rightarrow> qstring \<Rightarrow> qstring \<Rightarrow> i18nResult" where
  "i18np h this singular plural param1 param2 param3 param4 param5 param6 param7 param8 param9
     param10 =
     (if isNull singular \<or> isNull plural then ([''i18np() needs at least two arguments''], None)
      else
        let trMessage =
              ki18ndp (constData (m_domain this)) (constData singular) (constData plural);
            trMessage = subsNumberParam h param1 trMessage;
            trMessage = subsParam param2 trMessage;
            trMessage = subsParam param3 trMessage;
            trMessage = subsParam param4 trMessage;
            trMessage = subsParam param5 trMessage;
            trMessage = subsParam param6 trMessage;
            trMessage = subsParam param7 trMessage;
            trMessage = subsParam param8 trMessage;
            trMessage = subsParam param9 trMessage;
            trMessage = subsParam param10 trMessage
        in ([], Some (toString h trMessage)))"

definition i18ncp ::
  "l10n \<Rightarrow> TranslationContext \<Rightarrow> qstring \<Rightarrow> qstring \<Rightarrow> qstring \<Rightarrow> qstring \<Rightarrow> qstring \<Rightarrow> qstring \<Rightarrow>
   qstring \<Rightarrow> qstring \<Rightarrow> qstring \<Rightarrow> qstring \<Rightarrow> qstring \<Rightarrow> qstring \<Rightarrow> qstring \<Rightarrow> i18nResult" where
  "i18ncp h this ctx singular plural param1 param2 param3 param4 param5 param6 param7 param8
     param9 param10 =
     (if isNull ctx \<or> isNull singular \<or> isNull plural
      then ([''i18ncp() needs at least three arguments''], None)
      else
        let trMessage =
              ki18ndcp (constData (m_domain this)) (constData ctx) (constData singular)
                (constData plural);
            trMessage = subsNumberParam h param1 trMessage;
            trMessage = subsParam param2 trMessage;
            trMessage = subsParam param3 trMessage;
            trMessage = subsParam param4 trMessage;
            trMessage = subsParam param5 trMessage;
            trMessage = subsParam param6 trMessage;
            trMessage = subsParam param7 trMessage;
            trMessage = subsParam param8 trMessage;
            trMessage = subsParam param9 trMessage;
            trMessage = subsParam param10 trMessage
        in ([], Some (toString h trMessage)))"

section \<open>Shortcut conflict checker (keysequencehelper.cpp)\<close>

text \<open>
  A \<^verbatim>\<open>QKeySequence\<close> is the list of its key+modifier chords, each chord a key code; it is
  empty when the list is.
\<close>

type_synonym QKeySequence = "nat list"

definition keySequenceIsEmpty :: "QKeySequence \<Rightarrow> bool" where
  "keySequenceIsEmpty keySequence = (keySequence = [])"

text \<open>
  Modelled from the spec: \<^verbatim>\<open>KeySequenceHelper::ShortcutTypes\<close> is declared in
  keysequencehelper.h, which is not among the sources. The spec calls it a bitmask of which
  checks are active; the flags are taken as one bit each of a 32-bit \<^verbatim>\<open>QFlags\<close> value.
\<close>

type_synonym ShortcutTypes = "32 word"

definition StandardShortcuts :: ShortcutTypes where
  "StandardShortcuts = 0x01"

definition GlobalShortcuts :: ShortcutTypes where
  "GlobalShortcuts = 0x02"

text \<open>\<^verbatim>\<open>QFlags::testFlag\<close>, and the conversion of a \<^verbatim>\<open>QFlags\<close> value to \<^verbatim>\<open>bool\<close>.\<close>

definition testFlag :: "ShortcutTypes \<Rightarrow> ShortcutTypes \<Rightarrow> bool" where
  "testFlag i flag = ((i AND flag) = flag \<and> (flag \<noteq> 0 \<or> i = flag))"

definition checkAgainstStandardShortcuts :: "ShortcutTypes \<Rightarrow> bool" where
  "checkAgainstStandardShortcuts checkAgainstShortcutTypes =
     ((checkAgainstShortcutTypes AND StandardShortcuts) \<noteq> 0)"

definition checkAgainstGlobalShortcuts :: "ShortcutTypes \<Rightarrow> bool" where
  "checkAgainstGlobalShortcuts checkAgainstShortcutTypes =
     ((checkAgainstShortcutTypes AND GlobalShortcuts) \<noteq> 0)"

text \<open>The platform the file is compiled for selects the body of the global check.\<close>

datatype platform = Q_OS_WIN | Q_OS_DARWIN | Q_OS_OTHER

text \<open>
  The registries and the user are outside this repository. One check reads them through
  the fields below: the text of a sequence, \<^verbatim>\<open>KStandardShortcut::find\<close> and \<^verbatim>\<open>label\<close>,
  \<^verbatim>\<open>KGlobalAccel::isGlobalShortcutAvailable\<close> and \<^verbatim>\<open>globalShortcutsByKey\<close>, and the two
  answers of the user: to \<^verbatim>\<open>promptStealShortcutSystemwide\<close>, and whether
  \<^verbatim>\<open>warningContinueCancel\<close> is answered with Continue (the Reassign button).
\<close>

datatype StandardShortcut = AccelNone | Accel nat

datatype MatchType = Equal | Shadows | Shadowed

record KGlobalShortcutInfo =
  friendlyName :: string
  contextFriendlyName :: string

record desktop =
  seqToString :: "QKeySequence \<Rightarrow> string"
  seqNativeText :: "QKeySequence \<Rightarrow> string"
  stdFind :: "QKeySequence \<Rightarrow> StandardShortcut"
  stdLabel :: "StandardShortcut \<Rightarrow> string"
  isGlobalShortcutAvailable :: "QKeySequence \<Rightarrow> bool"
  globalShortcutsByKey :: "QKeySequence \<Rightarrow> MatchType \<Rightarrow> KGlobalShortcutInfo list"
  userStealsSystemwide :: bool
  userContinues :: bool

text \<open>
  What a check does to the outside is recorded in order. A dialog text is kept as the
  messages it is put together from, each with the arguments of its placeholders:
  the translation of the texts is not part of this file.
\<close>

datatype dialogTitle =
    ReservedShortcut
  | GlobalShortcutShadowing
  | ConflictWithStandardApplicationShortcut

datatype messagePart =
    F12IsReserved
  | IsShadowedByFollowing string
  | ShadowsFollowing string
  | ActionInContext string string
  | AlsoUsedForStandardAction string string

datatype effect =
    ErrorBox "messagePart list" dialogTitle
  | PromptStealShortcutSystemwide "KGlobalShortcutInfo list" QKeySequence
  | StealShortcutSystemwide QKeySequence
  | WarningContinueCancel "messagePart list" dialogTitle

text \<open>\<^verbatim>\<open>QString::contains\<close> with a string argument.\<close>

fun contains :: "string \<Rightarrow> string \<Rightarrow> bool" where
  "contains [] p = (p = [])"
| "contains (c # cs) p = (take (length p) (c # cs) = p \<or> contains cs p)"

definition actionLines :: "KGlobalShortcutInfo list \<Rightarrow> messagePart list" where
  "actionLines infos =
     map (\<lambda>info. ActionInContext (friendlyName info) (contextFriendlyName info)) infos"

definition conflictWithGlobalShortcuts ::
  "platform \<Rightarrow> desktop \<Rightarrow> ShortcutTypes \<Rightarrow> QKeySequence \<Rightarrow> bool \<times> effect list" where
  "conflictWithGlobalShortcuts os h checkAgainstShortcutTypes keySequence =
     (case os of
        Q_OS_WIN \<Rightarrow>
          (False,
           if GlobalShortcuts \<noteq> 0 \<and> contains (seqToString h keySequence) ''F12''
           then [ErrorBox [F12IsReserved] ReservedShortcut] else [])
      | Q_OS_DARWIN \<Rightarrow> (False, [])
      | Q_OS_OTHER \<Rightarrow>
          if \<not> ((checkAgainstShortcutTypes AND GlobalShortcuts) \<noteq> 0) then (False, [])
          else
            let unavailable = \<not> isGlobalShortcutAvailable h keySequence;
                others = (if unavailable then globalShortcutsByKey h keySequence Equal else []);
                shadow = (if unavailable then globalShortcutsByKey h keySequence Shadows else []);
                shadowed =
                  (if unavailable then globalShortcutsByKey h keySequence Shadowed else [])
            in
              if shadow \<noteq> [] \<or> shadowed \<noteq> [] then
                (True,
                 [ErrorBox
                    ((if shadowed \<noteq> []
                      then IsShadowedByFollowing (seqToString h keySequence) #
                           actionLines shadowed
                      else []) @
                     (if shadow \<noteq> []
                      then ShadowsFollowing (seqToString h keySequence) # actionLines shadow
                      else []))
                    GlobalShortcutShadowing])
              else if others \<noteq> [] \<and> \<not> userStealsSystemwide h then
                (True, [PromptStealShortcutSystemwide others keySequence])
              else
                (False,
                 (if others \<noteq> [] then [PromptStealShortcutSystemwide others keySequence]
                  else []) @
                 [StealShortcutSystemwide keySequence]))"

definition stealStandardShortcut ::
  "desktop \<Rightarrow> StandardShortcut \<Rightarrow> QKeySequence \<Rightarrow> bool \<times> effect list" where
  "stealStandardShortcut h std seq =
     (if \<not> userContinues h then False else True,
      [WarningContinueCancel
         [AlsoUsedForStandardAction (seqNativeText h seq) (stdLabel h std)]
         ConflictWithStandardApplicationShortcut])"

definition conflictWithStandardShortcuts ::
  "desktop \<Rightarrow> ShortcutTypes \<Rightarrow> QKeySequence \<Rightarrow> bool \<times> effect list" where
  "conflictWithStandardShortcuts h checkAgainstShortcutTypes keySequence =
     (if \<not> checkAgainstStandardShortcuts checkAgainstShortcutTypes then (False, [])
      else
        let ssc = stdFind h keySequence in
          if ssc \<noteq> AccelNone then
            (let asked = stealStandardShortcut h ssc keySequence in
               if \<not> fst asked then (True, snd asked) else (False, snd asked))
          else (False, []))"

text \<open>
  \<^verbatim>\<open>conflict |= ...\<close> evaluates its right-hand side whatever \<^verbatim>\<open>conflict\<close> holds, so
  both checks run when both flags are set, the global one first.
\<close>

definition isKeySequenceAvailable ::
  "platform \<Rightarrow> desktop \<Rightarrow> ShortcutTypes \<Rightarrow> QKeySequence \<Rightarrow> bool \<times> effect list" where
  "isKeySequenceAvailable os h checkAgainstShortcutTypes keySequence =
     (if keySequenceIsEmpty keySequence then (True, [])
      else
        let global =
              (if testFlag checkAgainstShortcutTypes GlobalShortcuts
               then conflictWithGlobalShortcuts os h checkAgainstShortcutTypes keySequence
               else (False, []));
            standard =
              (if testFlag checkAgainstShortcutTypes StandardShortcuts
               then conflictWithStandardShortcuts h checkAgainstShortcutTypes keySequence
               else (False, []));
            conflict = (fst global \<or> fst standard)
        in (\<not> conflict, snd global @ snd standard))"

section \<open>Config property map bridge (configpropertymap.cpp)\<close>

text \<open>A \<^verbatim>\<open>QVariant\<close> is a tagged value; \<open>Invalid\<close> is the default-constructed one.\<close>

datatype QVariant = Invalid | BoolV bool | IntV int | StringV string

datatype WriteConfigFlags = Normal | Notify

text \<open>
  Modelled from the spec: the configuration object (\<^verbatim>\<open>KCoreConfigSkeleton\<close>) and its items
  (\<^verbatim>\<open>KConfigSkeletonItem\<close>) belong to the configuration library, whose code is not among the
  sources. The spec gives an item a key, a current value and an immutable flag, and the
  registry an item lookup by key, save and read. The comment in \<^verbatim>\<open>writeConfigValue\<close> adds the
  loaded value \<^verbatim>\<open>mLoadedValue\<close>: a save writes an item only when its value differs from the
  loaded one, and only a read refreshes the loaded one. \<open>persisted\<close> is the value the
  backing store holds for the item, which is what a read yields. The immutable flag is
  only reported (\<open>isImmutable\<close>): neither the spec nor the sources make a save depend on it.
\<close>

record KConfigSkeletonItem =
  key :: string
  property :: QVariant
  mLoadedValue :: QVariant
  persisted :: QVariant
  immutable :: bool
  writeFlags :: WriteConfigFlags

text \<open>
  The configuration object is the list \<^verbatim>\<open>items()\<close>; an item is identified by its position
  in it, which is what a \<^verbatim>\<open>KConfigSkeletonItem *\<close> stands for. The object belongs to its
  owner, who may change values, and add or remove items, between two calls of the bridge.
\<close>

type_synonym KCoreConfigSkeleton = "KConfigSkeletonItem list"

fun findItem :: "KCoreConfigSkeleton \<Rightarrow> string \<Rightarrow> nat option" where
  "findItem [] name = None"
| "findItem (item # rest) name =
     (if key item = name then Some 0 else map_option Suc (findItem rest name))"

definition setWriteFlags ::
  "nat \<Rightarrow> WriteConfigFlags \<Rightarrow> KCoreConfigSkeleton \<Rightarrow> KCoreConfigSkeleton" where
  "setWriteFlags i f c = (if i < length c then c[i := (c ! i)\<lparr>writeFlags := f\<rparr>] else c)"

definition setProperty :: "nat \<Rightarrow> QVariant \<Rightarrow> KCoreConfigSkeleton \<Rightarrow> KCoreConfigSkeleton" where
  "setProperty i v c = (if i < length c then c[i := (c ! i)\<lparr>property := v\<rparr>] else c)"

definition dirty :: "KConfigSkeletonItem \<Rightarrow> bool" where
  "dirty item = (property item \<noteq> mLoadedValue item)"

text \<open>
  \<^verbatim>\<open>save()\<close> writes the items that differ from their loaded value to the store, and emits
  \<^verbatim>\<open>configChanged\<close> when it wrote one; \<^verbatim>\<open>read()\<close> takes every item's value and loaded value
  from the store.
\<close>

definition saveItems :: "KCoreConfigSkeleton \<Rightarrow> KCoreConfigSkeleton" where
  "saveItems c = map (\<lambda>item. if dirty item then item\<lparr>persisted := property item\<rparr> else item) c"

definition saveEmits :: "KCoreConfigSkeleton \<Rightarrow> bool" where
  "saveEmits c = list_ex dirty c"

definition readItems :: "KCoreConfigSkeleton \<Rightarrow> KCoreConfigSkeleton" where
  "readItems c =
     map (\<lambda>item. item\<lparr>property := persisted item, mLoadedValue := persisted item\<rparr>) c"

text \<open>
  A call through a null \<^verbatim>\<open>QPointer\<close>, or through an item pointer whose item is gone, does
  not return.
\<close>

datatype fault = NullDereference | DanglingItem

datatype LoadConfigOption = DontEmitValueChanged | EmitValueChanged

text \<open>
  The state of one \<^verbatim>\<open>ConfigPropertyMap\<close>: the members of \<^verbatim>\<open>ConfigPropertyMapPrivate\<close>
  (\<open>config\<close> is \<open>None\<close> for a null pointer), the key/value contents of the
  \<^verbatim>\<open>QQmlPropertyMap\<close> it derives from, and the \<^verbatim>\<open>valueChanged\<close> signals emitted so far,
  oldest first. \<^verbatim>\<open>insert(key, value)\<close> stores the value under the key and emits nothing.
\<close>

record ConfigPropertyMap =
  config :: "KCoreConfigSkeleton option"
  updatingConfigValue :: bool
  autosave :: bool
  notify :: bool
  contents :: "string \<rightharpoonup> QVariant"
  emitted :: "(string \<times> QVariant) list"

text \<open>
  The constructor connects \<^verbatim>\<open>valueChanged\<close> to \<^verbatim>\<open>writeConfigValue\<close> and the configuration's
  \<^verbatim>\<open>configChanged\<close> to a slot that reloads unless \<^verbatim>\<open>updatingConfigValue\<close> is set. Both
  connections are direct, so emitting a signal runs its slot before the emitter goes on:
  \<open>valueChanged\<close> records the emission and runs \<open>writeConfigValue\<close>, and a \<^verbatim>\<open>save()\<close> that
  emits runs \<open>configChanged\<close>. The loop of \<^verbatim>\<open>loadConfig\<close> walks the item pointers it took
  at its start (\<open>loadItems\<close>, over their positions) and reads each item when it reaches it.
\<close>

function
  writeConfigValue :: "string \<Rightarrow> QVariant \<Rightarrow> ConfigPropertyMap \<Rightarrow> fault + ConfigPropertyMap" and
  configChanged :: "ConfigPropertyMap \<Rightarrow> fault + ConfigPropertyMap" and
  valueChanged :: "string \<Rightarrow> QVariant \<Rightarrow> ConfigPropertyMap \<Rightarrow> fault + ConfigPropertyMap" and
  loadConfig :: "LoadConfigOption \<Rightarrow> ConfigPropertyMap \<Rightarrow> fault + ConfigPropertyMap" and
  loadItems ::
    "LoadConfigOption \<Rightarrow> nat list \<Rightarrow> ConfigPropertyMap \<Rightarrow> fault + ConfigPropertyMap"
where
  "writeConfigValue k v d =
     (case config d of
        None \<Rightarrow> Inl NullDereference
      | Some c \<Rightarrow>
          (case findItem c k of
             None \<Rightarrow> Inr d
           | Some i \<Rightarrow>
               (let c1 = setProperty i v
                           (setWriteFlags i (if notify d then Notify else Normal) c);
                    d1 = d\<lparr>updatingConfigValue := True, config := Some c1\<rparr>
                in
                  if autosave d1 then
                    (case (if saveEmits c1
                           then configChanged (d1\<lparr>config := Some (saveItems c1)\<rparr>)
                           else Inr (d1\<lparr>config := Some (saveItems c1)\<rparr>)) of
                       Inl e \<Rightarrow> Inl e
                     | Inr d2 \<Rightarrow>
                         (case config d2 of
                            None \<Rightarrow> Inl NullDereference
                          | Some c2 \<Rightarrow>
                              Inr (d2\<lparr>config := Some (readItems c2),
                                      updatingConfigValue := False\<rparr>)))
                  else Inr (d1\<lparr>updatingConfigValue := False\<rparr>))))"
| "configChanged d =
     (if \<not> updatingConfigValue d then loadConfig EmitValueChanged d else Inr d)"
| "valueChanged k v d = writeConfigValue k v (d\<lparr>emitted := emitted d @ [(k, v)]\<rparr>)"
| "loadConfig option d =
     (case config d of
        None \<Rightarrow> Inr d
      | Some c \<Rightarrow> loadItems option [0..<length c] d)"
| "loadItems option [] d = Inr d"
| "loadItems option (i # rest) d =
     (case config d of
        None \<Rightarrow> Inl DanglingItem
      | Some c \<Rightarrow>
          if i < length c then
            (let d1 = d\<lparr>contents := (contents d)(key (c ! i) \<mapsto> property (c ! i))\<rparr> in
               if option = EmitValueChanged then
                 (case valueChanged (key (c ! i)) (property (c ! i)) d1 of
                    Inl e \<Rightarrow> Inl e
                  | Inr d2 \<Rightarrow> loadItems option rest d2)
               else loadItems option rest d1)
          else Inl DanglingItem)"
  by pat_completeness auto

text \<open>
  The calls end: a reload runs write-backs, a write-back runs the slot of \<open>configChanged\<close>
  only with \<open>updatingConfigValue\<close> set, and the slot then does not reload.
\<close>

termination
  apply (relation "inv_image (less_than <*lex*> less_than)
     (\<lambda>x. case x of
        Inl (Inl (k, v, d)) \<Rightarrow> (1::nat, 0::nat)
      | Inl (Inr d) \<Rightarrow> (if updatingConfigValue d then 0 else 5, 0)
      | Inr (Inl (k, v, d)) \<Rightarrow> (2, 0)
      | Inr (Inr (Inl (opt, d))) \<Rightarrow> (4, 0)
      | Inr (Inr (Inr (opt, is, d))) \<Rightarrow> (3, length is))")
  apply auto
  done

declare writeConfigValue.simps [simp del] configChanged.simps [simp del]
  valueChanged.simps [simp del] loadConfig.simps [simp del]

text \<open>
  The constructor: a new object has an empty map, \<^verbatim>\<open>autosave = true\<close>, \<^verbatim>\<open>notify = false\<close>
  and \<^verbatim>\<open>updatingConfigValue = false\<close>, and loads without emitting.
\<close>

definition newConfigPropertyMap :: "KCoreConfigSkeleton option \<Rightarrow> fault + ConfigPropertyMap" where
  "newConfigPropertyMap cfg =
     loadConfig DontEmitValueChanged
       \<lparr>config = cfg, updatingConfigValue = False, autosave = True, notify = False,
        contents = Map.empty, emitted = []\<rparr>"

text \<open>\<^verbatim>\<open>q->value(key)\<close> is the invalid variant for a key the map does not hold.\<close>

definition writeConfig :: "ConfigPropertyMap \<Rightarrow> fault + ConfigPropertyMap" where
  "writeConfig d =
     (case config d of
        None \<Rightarrow> Inr d
      | Some c \<Rightarrow>
          (let c1 = map (\<lambda>item. item\<lparr>writeFlags := (if notify d then Notify else Normal),
                                      property := (case contents d (key item) of
                                                     None \<Rightarrow> Invalid | Some v \<Rightarrow> v)\<rparr>) c;
               d1 = d\<lparr>config := Some c1\<rparr>
           in
             if autosave d1 then
               (case (if saveEmits c1
                      then configChanged (d1\<lparr>updatingConfigValue := True,
                                             config := Some (saveItems c1)\<rparr>)
                      else Inr (d1\<lparr>updatingConfigValue := True,
                                   config := Some (saveItems c1)\<rparr>)) of
                  Inl e \<Rightarrow> Inl e
                | Inr d2 \<Rightarrow> Inr (d2\<lparr>updatingConfigValue := False\<rparr>))
             else Inr d1))"

definition isImmutable :: "ConfigPropertyMap \<Rightarrow> string \<Rightarrow> fault + bool" where
  "isImmutable d k =
     (case config d of
        None \<Rightarrow> Inl NullDereference
      | Some c \<Rightarrow>
          (case findItem c k of
             Some i \<Rightarrow> Inr (immutable (c ! i))
           | None \<Rightarrow> Inr False))"

definition setAutosave :: "bool \<Rightarrow> ConfigPropertyMap \<Rightarrow> ConfigPropertyMap" where
  "setAutosave a d = d\<lparr>autosave := a\<rparr>"

definition setNotify :: "bool \<Rightarrow> ConfigPropertyMap \<Rightarrow> ConfigPropertyMap" where
  "setNotify n d = d\<lparr>notify := n\<rparr>"

text \<open>
  What reaches the bridge from outside. A value written from the QML side: the
  \<^verbatim>\<open>QQmlPropertyMap\<close> stores it (after \<^verbatim>\<open>updateValue\<close>) and emits \<^verbatim>\<open>valueChanged\<close>. A change
  of the configuration made elsewhere: the configuration object then holds other items or
  values, and emits \<^verbatim>\<open>configChanged\<close>.
\<close>

definition qmlWrite :: "string \<Rightarrow> QVariant \<Rightarrow> ConfigPropertyMap \<Rightarrow> fault + ConfigPropertyMap" where
  "qmlWrite k v d = valueChanged k v (d\<lparr>contents := (contents d)(k \<mapsto> v)\<rparr>)"

definition externalChange ::
  "KCoreConfigSkeleton \<Rightarrow> ConfigPropertyMap \<Rightarrow> fault + ConfigPropertyMap" where
  "externalChange c d = configChanged (d\<lparr>config := Some c\<rparr>)"


section \<open>Notions of the specification, and sample inputs\<close>

text \<open>
  What the specification expects a translation call to substitute: the parameters that are
  not null, in argument order; and, for the first parameter of a plural call, the number it
  parses to, or else the parameter itself.
\<close>

fun nonNullParams :: "qstring list \<Rightarrow> string list" where
  "nonNullParams [] = []"
| "nonNullParams (None # ps) = nonNullParams ps"
| "nonNullParams (Some s # ps) = s # nonNullParams ps"

definition numberOrString :: "l10n \<Rightarrow> qstring \<Rightarrow> subsArg list" where
  "numberOrString h p =
     (case p of
        None \<Rightarrow> []
      | Some s \<Rightarrow> (case toInt h s of Some num \<Rightarrow> [SubsInt num] | None \<Rightarrow> [SubsString s]))"

text \<open>
  A small localization service for the examples: it parses the numerals 1 and 3 only, and
  renders a message as its plural form when the first argument is a number other than 1,
  and as its singular form otherwise.
\<close>

definition sampleL10n :: l10n where
  "sampleL10n =
     \<lparr>toInt = (\<lambda>s. if s = ''1'' then Some 1 else if s = ''3'' then Some 3 else None),
      toString = (\<lambda>t. case (kplural t, kargs t) of
                          (Some plur, SubsInt n # rest) \<Rightarrow> if n = 1 then ksingular t else plur
                        | _ \<Rightarrow> ksingular t)\<rparr>"

definition sampleContext :: TranslationContext where
  "sampleContext = \<lparr>m_domain = Some ''kdeclarative5''\<rparr>"

text \<open>
  A desktop for the examples. The sequence \<open>[1]\<close> is Ctrl+C: free as a global shortcut, and
  the standard shortcut for Copy. \<open>[2]\<close> is taken by one global action; \<open>[3]\<close> would shadow
  another. The user agrees to steal a global shortcut and cancels the reassignment of a
  standard one.
\<close>

definition sampleDesktop :: desktop where
  "sampleDesktop =
     \<lparr>seqToString = (\<lambda>seq. if seq = [1] then ''Ctrl+C'' else ''Meta+L''),
      seqNativeText = (\<lambda>seq. if seq = [1] then ''Ctrl+C'' else ''Meta+L''),
      stdFind = (\<lambda>seq. if seq = [1] then Accel 7 else AccelNone),
      stdLabel = (\<lambda>std. ''Copy''),
      isGlobalShortcutAvailable = (\<lambda>seq. seq = [1]),
      globalShortcutsByKey =
        (\<lambda>seq m. if seq = [2] \<and> m = Equal
                 then [\<lparr>friendlyName = ''Lock Session'', contextFriendlyName = ''Session''\<rparr>]
                 else if seq = [3] \<and> m = Shadows
                 then [\<lparr>friendlyName = ''Show Desktop'', contextFriendlyName = ''KWin''\<rparr>]
                 else []),
      userStealsSystemwide = True,
      userContinues = False\<rparr>"

text \<open>
  Sample states of the bridge. \<open>sampleItem k n\<close> is an item in sync at the value \<open>n\<close>.
  \<open>loadedA\<close> is a bridge just constructed over one item \<open>a = 1\<close>; \<open>reloadedAB\<close> is that
  bridge after the configuration has come to hold the single item \<open>b = 2\<close> instead and has
  announced the change; \<open>writtenA5\<close> is \<open>loadedA\<close> after 5 was written to \<open>a\<close> from QML, and
  \<open>reloadedA5\<close> is \<open>writtenA5\<close> after the configuration announced a change with no value
  changed. \<open>loadedAA\<close> is a bridge just constructed over two items that share the key \<open>a\<close>,
  with the values 1 and 2. \<open>unsavedA3\<close> is \<open>loadedA\<close> after autosave was switched off and
  3 was written to \<open>a\<close> from QML: the item holds 3, not saved, and its loaded value is
  still 1. \<open>staleA\<close> is that bridge once the store has come to hold 7 for \<open>a\<close>, written
  there by someone else, and autosave has been switched on again; \<open>lostA\<close> is \<open>staleA\<close>
  after 1 was written to \<open>a\<close> from QML.
\<close>

definition sampleItem :: "string \<Rightarrow> int \<Rightarrow> KConfigSkeletonItem" where
  "sampleItem k n =
     \<lparr>key = k, property = IntV n, mLoadedValue = IntV n, persisted = IntV n,
      immutable = False, writeFlags = Normal\<rparr>"

definition loadedA :: ConfigPropertyMap where
  "loadedA =
     \<lparr>config = Some [sampleItem ''a'' 1], updatingConfigValue = False, autosave = True,
      notify = False, contents = [''a'' \<mapsto> IntV 1], emitted = []\<rparr>"

definition reloadedAB :: ConfigPropertyMap where
  "reloadedAB =
     \<lparr>config = Some [sampleItem ''b'' 2], updatingConfigValue = False, autosave = True,
      notify = False, contents = [''a'' \<mapsto> IntV 1, ''b'' \<mapsto> IntV 2],
      emitted = [(''b'', IntV 2)]\<rparr>"



definition loadedAA :: ConfigPropertyMap where
  "loadedAA =
     \<lparr>config = Some [sampleItem ''a'' 1, sampleItem ''a'' 2], updatingConfigValue = False,
      autosave = True, notify = False, contents = [''a'' \<mapsto> IntV 2], emitted = []\<rparr>"




section \<open>Properties of the translation context\<close>

lemma nonNullParams_Cons2:
  "nonNullParams (p # q # ps) = nonNullParams [p] @ nonNullParams (q # ps)"
  by (cases p) simp_all

lemma subsParam_args:
  "subsParam p t = t\<lparr>kargs := kargs t @ map SubsString (nonNullParams [p])\<rparr>"
  by (cases p) (simp_all add: subsParam_def isNull_def subs_def)

lemma subsNumberParam_args:
  "subsNumberParam h p t = t\<lparr>kargs := kargs t @ numberOrString h p\<rparr>"
  by (cases p)
    (simp_all add: subsNumberParam_def numberOrString_def isNull_def subs_def subsInt_def
      split: option.splits)

lemma i18n_args:
  "\<not> isNull message \<Longrightarrow>
   i18n h this message p1 p2 p3 p4 p5 p6 p7 p8 p9 p10 =
     ([], Some (toString h
        ((ki18nd (constData (m_domain this)) (constData message))
           \<lparr>kargs := map SubsString (nonNullParams [p1, p2, p3, p4, p5, p6, p7, p8, p9, p10])\<rparr>)))"
  by (simp add: i18n_def Let_def subsParam_args nonNullParams_Cons2 ki18nd_def)

lemma i18nc_args:
  "\<not> isNull ctx \<Longrightarrow> \<not> isNull message \<Longrightarrow>
   i18nc h this ctx message p1 p2 p3 p4 p5 p6 p7 p8 p9 p10 =
     ([], Some (toString h
        ((ki18ndc (constData (m_domain this)) (constData ctx) (constData message))
           \<lparr>kargs := map SubsString (nonNullParams [p1, p2, p3, p4, p5, p6, p7, p8, p9, p10])\<rparr>)))"
  by (simp add: i18nc_def Let_def subsParam_args nonNullParams_Cons2 ki18ndc_def)

lemma i18np_args:
  "\<not> isNull singular \<Longrightarrow> \<not> isNull plural \<Longrightarrow>
   i18np h this singular plural p1 p2 p3 p4 p5 p6 p7 p8 p9 p10 =
     ([], Some (toString h
        ((ki18ndp (constData (m_domain this)) (constData singular) (constData plural))
           \<lparr>kargs := numberOrString h p1 @
                     map SubsString (nonNullParams [p2, p3, p4, p5, p6, p7, p8, p9, p10])\<rparr>)))"
  by (simp add: i18np_def Let_def subsParam_args subsNumberParam_args nonNullParams_Cons2
      ki18ndp_def)

lemma i18ncp_args:
  "\<not> isNull ctx \<Longrightarrow> \<not> isNull singular \<Longrightarrow> \<not> isNull plural \<Longrightarrow>
   i18ncp h this ctx singular plural p1 p2 p3 p4 p5 p6 p7 p8 p9 p10 =
     ([], Some (toString h
        ((ki18ndcp (constData (m_domain this)) (constData ctx) (constData singular)
            (constData plural))
           \<lparr>kargs := numberOrString h p1 @
                     map SubsString (nonNullParams [p2, p3, p4, p5, p6, p7, p8, p9, p10])\<rparr>)))"
  by (simp add: i18ncp_def Let_def subsParam_args subsNumberParam_args nonNullParams_Cons2
      ki18ndcp_def)

text \<open>
  C7. A translation call whose required text is missing (a null string) logs one
  diagnostic and returns the null string, which is empty: \<open>i18n\<close> requires the message,
  \<open>i18nc\<close> the context and the message, \<open>i18np\<close> the singular and the plural, \<open>i18ncp\<close> the
  context, the singular and the plural.
\<close>

theorem missing_required_text:
  "(isNull message \<longrightarrow>
      i18n h this message p1 p2 p3 p4 p5 p6 p7 p8 p9 p10 =
        ([''i18n() needs at least one parameter''], None)) \<and>
   (isNull ctx \<or> isNull message \<longrightarrow>
      i18nc h this ctx message p1 p2 p3 p4 p5 p6 p7 p8 p9 p10 =
        ([''i18nc() needs at least two arguments''], None)) \<and>
   (isNull singular \<or> isNull plural \<longrightarrow>
      i18np h this singular plural p1 p2 p3 p4 p5 p6 p7 p8 p9 p10 =
        ([''i18np() needs at least two arguments''], None)) \<and>
   (isNull ctx \<or> isNull singular \<or> isNull plural \<longrightarrow>
      i18ncp h this ctx singular plural p1 p2 p3 p4 p5 p6 p7 p8 p9 p10 =
        ([''i18ncp() needs at least three arguments''], None)) \<and>
   isNull None \<and> isEmpty None"
proof -
  have "isNull None" and "isEmpty None"
    by (simp_all add: isNull_def isEmpty_def)
  moreover have "isNull message \<longrightarrow>
      i18n h this message p1 p2 p3 p4 p5 p6 p7 p8 p9 p10 =
        ([''i18n() needs at least one parameter''], None)"
    by (simp add: i18n_def)
  moreover have "isNull ctx \<or> isNull message \<longrightarrow>
      i18nc h this ctx message p1 p2 p3 p4 p5 p6 p7 p8 p9 p10 =
        ([''i18nc() needs at least two arguments''], None)"
    by (simp add: i18nc_def)
  moreover have "isNull singular \<or> isNull plural \<longrightarrow>
      i18np h this singular plural p1 p2 p3 p4 p5 p6 p7 p8 p9 p10 =
        ([''i18np() needs at least two arguments''], None)"
    by (simp add: i18np_def)
  moreover have "isNull ctx \<or> isNull singular \<or> isNull plural \<longrightarrow>
      i18ncp h this ctx singular plural p1 p2 p3 p4 p5 p6 p7 p8 p9 p10 =
        ([''i18ncp() needs at least three arguments''], None)"
    by (simp add: i18ncp_def)
  ultimately show ?thesis by simp
qed

theorem missing_required_text_witness:
  "i18n sampleL10n sampleContext None (Some ''a'') None None None None None None None None None =
     ([''i18n() needs at least one parameter''], None) \<and>
   i18nc sampleL10n sampleContext (Some ''menu'') None (Some ''a'') None None None None None
     None None None None = ([''i18nc() needs at least two arguments''], None) \<and>
   i18np sampleL10n sampleContext None (Some ''%1 files'') (Some ''a'') None None None None
     None None None None None = ([''i18np() needs at least two arguments''], None) \<and>
   i18ncp sampleL10n sampleContext (Some ''menu'') None (Some ''%1 files'') (Some ''a'') None
     None None None None None None None None =
     ([''i18ncp() needs at least three arguments''], None)"
  using missing_required_text [where h = sampleL10n and this = sampleContext
      and message = None and ctx = "Some ''menu''" and singular = None
      and plural = "Some ''%1 files''" and ?p1.0 = "Some ''a''" and ?p2.0 = None
      and ?p3.0 = None and ?p4.0 = None and ?p5.0 = None and ?p6.0 = None and ?p7.0 = None
      and ?p8.0 = None and ?p9.0 = None and ?p10.0 = None]
  by (simp add: isNull_def)

text \<open>
  C8. In a plural call with the required texts present and a first parameter that is not
  null, the first parameter is substituted as a number when \<open>toInt\<close> succeeds on it, and as
  the string itself when it fails; the other parameters follow as strings. The number, the
  singular and the plural form reach \<open>toString\<close> together, which selects the form.
\<close>

theorem plural_first_parameter:
  "(\<not> isNull singular \<and> \<not> isNull plural \<and> toInt h s = Some num \<longrightarrow>
      i18np h this singular plural (Some s) p2 p3 p4 p5 p6 p7 p8 p9 p10 =
        ([], Some (toString h
           ((ki18ndp (constData (m_domain this)) (constData singular) (constData plural))
              \<lparr>kargs := SubsInt num #
                 map SubsString (nonNullParams [p2, p3, p4, p5, p6, p7, p8, p9, p10])\<rparr>)))) \<and>
   (\<not> isNull singular \<and> \<not> isNull plural \<and> toInt h s = None \<longrightarrow>
      i18np h this singular plural (Some s) p2 p3 p4 p5 p6 p7 p8 p9 p10 =
        ([], Some (toString h
           ((ki18ndp (constData (m_domain this)) (constData singular) (constData plural))
              \<lparr>kargs := SubsString s #
                 map SubsString (nonNullParams [p2, p3, p4, p5, p6, p7, p8, p9, p10])\<rparr>)))) \<and>
   (\<not> isNull ctx \<and> \<not> isNull singular \<and> \<not> isNull plural \<and> toInt h s = Some num \<longrightarrow>
      i18ncp h this ctx singular plural (Some s) p2 p3 p4 p5 p6 p7 p8 p9 p10 =
        ([], Some (toString h
           ((ki18ndcp (constData (m_domain this)) (constData ctx) (constData singular)
               (constData plural))
              \<lparr>kargs := SubsInt num #
                 map SubsString (nonNullParams [p2, p3, p4, p5, p6, p7, p8, p9, p10])\<rparr>)))) \<and>
   (\<not> isNull ctx \<and> \<not> isNull singular \<and> \<not> isNull plural \<and> toInt h s = None \<longrightarrow>
      i18ncp h this ctx singular plural (Some s) p2 p3 p4 p5 p6 p7 p8 p9 p10 =
        ([], Some (toString h
           ((ki18ndcp (constData (m_domain this)) (constData ctx) (constData singular)
               (constData plural))
              \<lparr>kargs := SubsString s #
                 map SubsString (nonNullParams [p2, p3, p4, p5, p6, p7, p8, p9, p10])\<rparr>))))"
  by (simp add: i18np_args i18ncp_args numberOrString_def)

theorem plural_first_parameter_witness:
  "i18np sampleL10n sampleContext (Some ''%1 file'') (Some ''%1 files'') (Some ''3'') None None
     None None None None None None None = ([], Some ''%1 files'') \<and>
   i18np sampleL10n sampleContext (Some ''%1 file'') (Some ''%1 files'') (Some ''1'') None None
     None None None None None None None = ([], Some ''%1 file'') \<and>
   i18np sampleL10n sampleContext (Some ''%1 file'') (Some ''%1 files'') (Some ''many'') None
     None None None None None None None None = ([], Some ''%1 file'') \<and>
   i18ncp sampleL10n sampleContext (Some ''count'') (Some ''%1 file'') (Some ''%1 files'')
     (Some ''3'') None None None None None None None None None = ([], Some ''%1 files'')"
  using
    plural_first_parameter [where h = sampleL10n and this = sampleContext
      and singular = "Some ''%1 file''" and plural = "Some ''%1 files''"
      and ctx = "Some ''count''" and s = "''3''" and num = 3
      and ?p2.0 = None and ?p3.0 = None and ?p4.0 = None and ?p5.0 = None and ?p6.0 = None
      and ?p7.0 = None and ?p8.0 = None and ?p9.0 = None and ?p10.0 = None]
    plural_first_parameter [where h = sampleL10n and this = sampleContext
      and singular = "Some ''%1 file''" and plural = "Some ''%1 files''"
      and ctx = "Some ''count''" and s = "''1''" and num = 1
      and ?p2.0 = None and ?p3.0 = None and ?p4.0 = None and ?p5.0 = None and ?p6.0 = None
      and ?p7.0 = None and ?p8.0 = None and ?p9.0 = None and ?p10.0 = None]
    plural_first_parameter [where h = sampleL10n and this = sampleContext
      and singular = "Some ''%1 file''" and plural = "Some ''%1 files''"
      and ctx = "Some ''count''" and s = "''many''"
      and ?p2.0 = None and ?p3.0 = None and ?p4.0 = None and ?p5.0 = None and ?p6.0 = None
      and ?p7.0 = None and ?p8.0 = None and ?p9.0 = None and ?p10.0 = None]
  by (simp add: isNull_def constData_def sampleL10n_def ki18ndp_def ki18ndcp_def)

text \<open>
  C10. With the required texts present, a call substitutes exactly the parameters that are
  not null, in argument order (the first parameter of a plural call as a number when it
  parses). A null parameter holds no place: in \<open>i18n(message, null, s, ...)\<close> the string \<open>s\<close>
  is the first argument substituted, and every later one moves up with it.
\<close>

theorem parameters_substituted_in_order:
  "(\<not> isNull message \<longrightarrow>
      i18n h this message p1 p2 p3 p4 p5 p6 p7 p8 p9 p10 =
        ([], Some (toString h
           ((ki18nd (constData (m_domain this)) (constData message))
              \<lparr>kargs :=
                 map SubsString (nonNullParams [p1, p2, p3, p4, p5, p6, p7, p8, p9, p10])\<rparr>)))) \<and>
   (\<not> isNull ctx \<and> \<not> isNull message \<longrightarrow>
      i18nc h this ctx message p1 p2 p3 p4 p5 p6 p7 p8 p9 p10 =
        ([], Some (toString h
           ((ki18ndc (constData (m_domain this)) (constData ctx) (constData message))
              \<lparr>kargs :=
                 map SubsString (nonNullParams [p1, p2, p3, p4, p5, p6, p7, p8, p9, p10])\<rparr>)))) \<and>
   (\<not> isNull singular \<and> \<not> isNull plural \<longrightarrow>
      i18np h this singular plural p1 p2 p3 p4 p5 p6 p7 p8 p9 p10 =
        ([], Some (toString h
           ((ki18ndp (constData (m_domain this)) (constData singular) (constData plural))
              \<lparr>kargs := numberOrString h p1 @
                 map SubsString (nonNullParams [p2, p3, p4, p5, p6, p7, p8, p9, p10])\<rparr>)))) \<and>
   (\<not> isNull ctx \<and> \<not> isNull singular \<and> \<not> isNull plural \<longrightarrow>
      i18ncp h this ctx singular plural p1 p2 p3 p4 p5 p6 p7 p8 p9 p10 =
        ([], Some (toString h
           ((ki18ndcp (constData (m_domain this)) (constData ctx) (constData singular)
               (constData plural))
              \<lparr>kargs := numberOrString h p1 @
                 map SubsString (nonNullParams [p2, p3, p4, p5, p6, p7, p8, p9, p10])\<rparr>)))) \<and>
   (\<not> isNull message \<longrightarrow>
      i18n h this message None (Some s) p3 p4 p5 p6 p7 p8 p9 p10 =
        ([], Some (toString h
           ((ki18nd (constData (m_domain this)) (constData message))
              \<lparr>kargs := SubsString s #
                 map SubsString (nonNullParams [p3, p4, p5, p6, p7, p8, p9, p10])\<rparr>))))"
  by (simp add: i18n_args i18nc_args i18np_args i18ncp_args)

theorem parameters_substituted_in_order_witness:
  "i18n \<lparr>toInt = (\<lambda>s. None), toString = (\<lambda>t. concat (map (\<lambda>a. case a of SubsString x \<Rightarrow> x | SubsInt n \<Rightarrow> ''#'') (kargs t)))\<rparr>
     sampleContext (Some ''%1 %2 %3'') None (Some ''b'') None (Some ''d'') None None None None
     None (Some ''j'') = ([], Some ''bdj'')"
  using parameters_substituted_in_order [where
      h = "\<lparr>toInt = (\<lambda>s. None), toString = (\<lambda>t. concat (map (\<lambda>a. case a of SubsString x \<Rightarrow> x | SubsInt n \<Rightarrow> ''#'') (kargs t)))\<rparr>"
      and this = sampleContext and message = "Some ''%1 %2 %3''" and ?p1.0 = None
      and ?p2.0 = "Some ''b''" and ?p3.0 = None and ?p4.0 = "Some ''d''" and ?p5.0 = None
      and ?p6.0 = None and ?p7.0 = None and ?p8.0 = None and ?p9.0 = None
      and ?p10.0 = "Some ''j''"]
  by (simp add: isNull_def)

section \<open>Properties of the shortcut conflict checker\<close>

lemma and_one_flag: "((w::32 word) AND 1 = 1) \<longleftrightarrow> (w AND 1 \<noteq> 0)"
  by (simp add: and_one_eq)

lemma and_two_flag: "((w::32 word) AND 2 = 2) \<longleftrightarrow> (w AND 2 \<noteq> 0)"
proof -
  have "w AND 2 = (if bit w 1 then 2 else 0)"
    by (rule bit_eqI) (auto simp: bit_and_iff bit_simps)
  then show ?thesis by simp
qed

text \<open>For these one-bit flags \<open>testFlag\<close> and the conversion of the masked value agree.\<close>

lemma testFlag_StandardShortcuts:
  "testFlag types StandardShortcuts = checkAgainstStandardShortcuts types"
  by (simp add: testFlag_def checkAgainstStandardShortcuts_def StandardShortcuts_def and_one_flag)

lemma testFlag_GlobalShortcuts:
  "testFlag types GlobalShortcuts = checkAgainstGlobalShortcuts types"
  by (simp add: testFlag_def checkAgainstGlobalShortcuts_def GlobalShortcuts_def and_two_flag)

text \<open>
  C5. Whatever \<open>checkAgainstShortcutTypes\<close> holds, on every platform, an empty key sequence
  is available, and the check has no effect on the outside: no registry is asked, no dialog
  is shown.
\<close>

theorem empty_sequence_available:
  "isKeySequenceAvailable os h types [] = (True, [])"
  by (simp add: isKeySequenceAvailable_def keySequenceIsEmpty_def)

theorem empty_sequence_available_witness:
  "isKeySequenceAvailable Q_OS_OTHER sampleDesktop (StandardShortcuts OR GlobalShortcuts) [] =
     (True, [])"
  using empty_sequence_available [of Q_OS_OTHER sampleDesktop "StandardShortcuts OR GlobalShortcuts"]
  by simp

text \<open>
  C3. Let a key sequence that is not empty match a standard shortcut, with the check
  against standard shortcuts active. The user is asked once whether to reassign. If the
  user does not continue, the sequence is not available. If the user continues, the
  sequence does not conflict with the standard shortcuts, and it is available unless the
  global check, when that one is active, finds a conflict.
\<close>

theorem standard_shortcut_reassignment:
  assumes "keySequence \<noteq> []" and "testFlag types StandardShortcuts"
    and "stdFind h keySequence \<noteq> AccelNone"
  shows "(\<not> userContinues h \<longrightarrow>
            fst (isKeySequenceAvailable os h types keySequence) = False) \<and>
         (userContinues h \<longrightarrow>
            fst (conflictWithStandardShortcuts h types keySequence) = False \<and>
            fst (isKeySequenceAvailable os h types keySequence) =
              (\<not> (testFlag types GlobalShortcuts \<and>
                   fst (conflictWithGlobalShortcuts os h types keySequence)))) \<and>
         snd (conflictWithStandardShortcuts h types keySequence) =
           [WarningContinueCancel
              [AlsoUsedForStandardAction (seqNativeText h keySequence)
                 (stdLabel h (stdFind h keySequence))]
              ConflictWithStandardApplicationShortcut]"
  using assms
  by (simp add: isKeySequenceAvailable_def keySequenceIsEmpty_def
      conflictWithStandardShortcuts_def stealStandardShortcut_def testFlag_StandardShortcuts
      Let_def)

theorem standard_shortcut_reassignment_witness:
  "[1] \<noteq> ([] :: QKeySequence) \<and> testFlag StandardShortcuts StandardShortcuts \<and>
   stdFind sampleDesktop [1] \<noteq> AccelNone \<and> \<not> userContinues sampleDesktop \<and>
   fst (isKeySequenceAvailable Q_OS_OTHER sampleDesktop StandardShortcuts [1]) = False \<and>
   userContinues (sampleDesktop\<lparr>userContinues := True\<rparr>) \<and>
   fst (isKeySequenceAvailable Q_OS_OTHER (sampleDesktop\<lparr>userContinues := True\<rparr>)
          StandardShortcuts [1]) = True"
proof -
  have a: "[1] \<noteq> ([] :: QKeySequence)" by simp
  have b: "testFlag StandardShortcuts StandardShortcuts"
    by (simp add: testFlag_def StandardShortcuts_def)
  have c: "stdFind sampleDesktop [1] \<noteq> AccelNone"
    by (simp add: sampleDesktop_def)
  have c': "stdFind (sampleDesktop\<lparr>userContinues := True\<rparr>) [1] \<noteq> AccelNone"
    by (simp add: sampleDesktop_def)
  have g: "\<not> testFlag StandardShortcuts GlobalShortcuts"
    by (simp add: testFlag_def StandardShortcuts_def GlobalShortcuts_def)
  have u: "\<not> userContinues sampleDesktop" by (simp add: sampleDesktop_def)
  from standard_shortcut_reassignment [OF a b c, of Q_OS_OTHER]
    standard_shortcut_reassignment [OF a b c', of Q_OS_OTHER] a b c g u
  show ?thesis by simp
qed

text \<open>
  C4. On a platform where the global check is compiled in, with the check active and the
  sequence reported as not available, the registry's answers give three cases. If the
  sequence shadows a global shortcut or is shadowed by one (or both), one error dialog
  names the shadowed and the shadowing actions, the sequence conflicts, and neither a
  prompt nor a steal takes place. If there is no shadowing but another action holds the
  sequence, the user is asked whether to steal it: on approval the shortcut is stolen at
  once and the sequence does not conflict; on refusal nothing is stolen and it conflicts.
\<close>

theorem global_shortcut_cases:
  assumes "checkAgainstGlobalShortcuts types"
  shows "(\<not> isGlobalShortcutAvailable h keySequence \<and>
          (globalShortcutsByKey h keySequence Shadows \<noteq> [] \<or>
           globalShortcutsByKey h keySequence Shadowed \<noteq> []) \<longrightarrow>
            conflictWithGlobalShortcuts Q_OS_OTHER h types keySequence =
              (True,
               [ErrorBox
                  ((if globalShortcutsByKey h keySequence Shadowed \<noteq> []
                    then IsShadowedByFollowing (seqToString h keySequence) #
                         actionLines (globalShortcutsByKey h keySequence Shadowed)
                    else []) @
                   (if globalShortcutsByKey h keySequence Shadows \<noteq> []
                    then ShadowsFollowing (seqToString h keySequence) #
                         actionLines (globalShortcutsByKey h keySequence Shadows)
                    else []))
                  GlobalShortcutShadowing])) \<and>
         (\<not> isGlobalShortcutAvailable h keySequence \<and>
          globalShortcutsByKey h keySequence Shadows = [] \<and>
          globalShortcutsByKey h keySequence Shadowed = [] \<and>
          globalShortcutsByKey h keySequence Equal \<noteq> [] \<and> userStealsSystemwide h \<longrightarrow>
            conflictWithGlobalShortcuts Q_OS_OTHER h types keySequence =
              (False,
               [PromptStealShortcutSystemwide (globalShortcutsByKey h keySequence Equal)
                  keySequence,
                StealShortcutSystemwide keySequence])) \<and>
         (\<not> isGlobalShortcutAvailable h keySequence \<and>
          globalShortcutsByKey h keySequence Shadows = [] \<and>
          globalShortcutsByKey h keySequence Shadowed = [] \<and>
          globalShortcutsByKey h keySequence Equal \<noteq> [] \<and> \<not> userStealsSystemwide h \<longrightarrow>
            conflictWithGlobalShortcuts Q_OS_OTHER h types keySequence =
              (True,
               [PromptStealShortcutSystemwide (globalShortcutsByKey h keySequence Equal)
                  keySequence]))"
  using assms
  by (simp add: conflictWithGlobalShortcuts_def checkAgainstGlobalShortcuts_def Let_def)

theorem global_shortcut_cases_witness:
  "checkAgainstGlobalShortcuts GlobalShortcuts \<and>
   conflictWithGlobalShortcuts Q_OS_OTHER sampleDesktop GlobalShortcuts [3] =
     (True,
      [ErrorBox [ShadowsFollowing ''Meta+L'', ActionInContext ''Show Desktop'' ''KWin'']
         GlobalShortcutShadowing]) \<and>
   conflictWithGlobalShortcuts Q_OS_OTHER sampleDesktop GlobalShortcuts [2] =
     (False,
      [PromptStealShortcutSystemwide
         [\<lparr>friendlyName = ''Lock Session'', contextFriendlyName = ''Session''\<rparr>] [2],
       StealShortcutSystemwide [2]]) \<and>
   conflictWithGlobalShortcuts Q_OS_OTHER (sampleDesktop\<lparr>userStealsSystemwide := False\<rparr>)
     GlobalShortcuts [2] =
     (True,
      [PromptStealShortcutSystemwide
         [\<lparr>friendlyName = ''Lock Session'', contextFriendlyName = ''Session''\<rparr>] [2]])"
proof -
  have a: "checkAgainstGlobalShortcuts GlobalShortcuts"
    by (simp add: checkAgainstGlobalShortcuts_def GlobalShortcuts_def)
  from global_shortcut_cases [OF a, of sampleDesktop "[3]"]
    global_shortcut_cases [OF a, of sampleDesktop "[2]"]
    global_shortcut_cases [OF a, of "sampleDesktop\<lparr>userStealsSystemwide := False\<rparr>" "[2]"] a
  show ?thesis by (simp add: sampleDesktop_def actionLines_def)
qed

section \<open>Properties of the config property map bridge\<close>

text \<open>
  A write-back without recursion: the slot of \<open>configChanged\<close> that a save may run finds
  \<open>updatingConfigValue\<close> set and returns at once.
\<close>

lemma writeConfigValue_closed:
  "writeConfigValue k v d =
     (case config d of
        None \<Rightarrow> Inl NullDereference
      | Some c \<Rightarrow>
          (case findItem c k of
             None \<Rightarrow> Inr d
           | Some i \<Rightarrow>
               Inr (d\<lparr>updatingConfigValue := False,
                      config := Some
                        (let c1 = setProperty i v
                                    (setWriteFlags i (if notify d then Notify else Normal) c)
                         in if autosave d then readItems (saveItems c1) else c1)\<rparr>)))"
  by (simp add: writeConfigValue.simps configChanged.simps Let_def split: option.splits)




lemma list_update_key_same:
  "i < length c \<Longrightarrow> (map key c)[i := key (c ! i)] = map key c"
  by (metis list_update_id nth_map)

lemma keys_setWriteFlags [simp]: "map key (setWriteFlags i f c) = map key c"
  by (simp add: setWriteFlags_def map_update list_update_key_same)

lemma keys_setProperty [simp]: "map key (setProperty i v c) = map key c"
  by (simp add: setProperty_def map_update list_update_key_same)

lemma keys_saveItems [simp]: "map key (saveItems c) = map key c"
  by (simp add: saveItems_def)

lemma keys_readItems [simp]: "map key (readItems c) = map key c"
  by (simp add: readItems_def)

lemma length_setWriteFlags [simp]: "length (setWriteFlags i f c) = length c"
  by (simp add: setWriteFlags_def)

lemma length_setProperty [simp]: "length (setProperty i v c) = length c"
  by (simp add: setProperty_def)

lemma length_saveItems [simp]: "length (saveItems c) = length c"
  by (simp add: saveItems_def)

lemma length_readItems [simp]: "length (readItems c) = length c"
  by (simp add: readItems_def)

lemma same_keys_length: "map key c' = map key c \<Longrightarrow> length c' = length c"
  by (drule arg_cong [where f = length]) simp

lemma writeConfigValue_shape:
  assumes "config d = Some c"
  shows "\<exists>d' c'. writeConfigValue k v d = Inr d' \<and> config d' = Some c' \<and>
           map key c' = map key c \<and> contents d' = contents d \<and> emitted d' = emitted d \<and>
           autosave d' = autosave d \<and> notify d' = notify d"
  using assms by (cases "findItem c k") (simp_all add: writeConfigValue_closed Let_def)

lemma loadItems_keys:
  assumes "config d = Some c" and "\<forall>i \<in> set is. i < length c"
  shows "\<exists>d' c'. loadItems opt is d = Inr d' \<and> config d' = Some c' \<and>
           map key c' = map key c \<and>
           dom (contents d') = dom (contents d) \<union> (\<lambda>i. key (c ! i)) ` set is \<and>
           autosave d' = autosave d \<and> notify d' = notify d"
  using assms
proof (induction "is" arbitrary: d c)
  case Nil
  then show ?case by simp
next
  case (Cons i rest)
  let ?k = "key (c ! i)" and ?v = "property (c ! i)"
  define d1 where "d1 = d\<lparr>contents := (contents d)(?k \<mapsto> ?v)\<rparr>"
  have i: "i < length c" and rest: "\<forall>j \<in> set rest. j < length c"
    using Cons.prems by simp_all
  have cfg1: "config d1 = Some c" using Cons.prems by (simp add: d1_def)
  show ?case
  proof (cases "opt = EmitValueChanged")
    case False
    from Cons.IH [OF cfg1 rest, of ] obtain d' c' where
      "loadItems opt rest d1 = Inr d'" "config d' = Some c'" "map key c' = map key c"
      "dom (contents d') = dom (contents d1) \<union> (\<lambda>i. key (c ! i)) ` set rest"
      "autosave d' = autosave d1" "notify d' = notify d1"
      by blast
    with False i Cons.prems(1) show ?thesis
      by (auto simp: d1_def Let_def)
  next
    case True
    have cfg1e: "config (d1\<lparr>emitted := emitted d1 @ [(?k, ?v)]\<rparr>) = Some c"
      using cfg1 by simp
    from writeConfigValue_shape [OF cfg1e, of ?k ?v] obtain d2 c2 where
      w: "valueChanged ?k ?v d1 = Inr d2" "config d2 = Some c2" "map key c2 = map key c"
         "contents d2 = contents d1" "autosave d2 = autosave d1" "notify d2 = notify d1"
      by (auto simp: valueChanged.simps)
    have len: "length c2 = length c" using w(3) by (rule same_keys_length)
    have rest2: "\<forall>j \<in> set rest. j < length c2" using rest len by simp
    from Cons.IH [OF w(2) rest2] obtain d' c' where
      l: "loadItems opt rest d2 = Inr d'" "config d' = Some c'" "map key c' = map key c2"
         "dom (contents d') = dom (contents d2) \<union> (\<lambda>i. key (c2 ! i)) ` set rest"
         "autosave d' = autosave d2" "notify d' = notify d2"
      by blast
    have "\<forall>j \<in> set rest. key (c2 ! j) = key (c ! j)"
    proof
      fix j assume "j \<in> set rest"
      then have "j < length c" using rest by simp
      then show "key (c2 ! j) = key (c ! j)"
        using w(3) len by (metis nth_map)
    qed
    then have img: "(\<lambda>i. key (c2 ! i)) ` set rest = (\<lambda>i. key (c ! i)) ` set rest"
      by (simp cong: image_cong)
    have "loadItems opt (i # rest) d = Inr d'"
      using True i Cons.prems(1) w(1) l(1) by (simp add: d1_def Let_def)
    moreover have "dom (contents d') = dom (contents d) \<union> (\<lambda>i. key (c ! i)) ` set (i # rest)"
      using l(4) w(4) img by (auto simp: d1_def)
    ultimately show ?thesis
      using l(2,3,5,6) w(3,5,6) by (auto simp: d1_def)
  qed
qed

lemma image_nth_upt: "(\<lambda>i. f (c ! i)) ` {0..<length c} = f ` set c"
proof -
  have "map (\<lambda>i. f (c ! i)) [0..<length c] = map f c"
    by (rule nth_equalityI) simp_all
  then have "set (map (\<lambda>i. f (c ! i)) [0..<length c]) = set (map f c)" by simp
  then show ?thesis by simp
qed

lemma loadConfig_keys:
  assumes "config d = Some c"
  shows "\<exists>d' c'. loadConfig opt d = Inr d' \<and> config d' = Some c' \<and>
           map key c' = map key c \<and>
           dom (contents d') = dom (contents d) \<union> set (map key c) \<and>
           autosave d' = autosave d \<and> notify d' = notify d"
proof -
  have "\<forall>i \<in> set [0..<length c]. i < length c" by simp
  from loadItems_keys [OF assms this, of opt] show ?thesis
    using assms by (simp add: loadConfig.simps image_nth_upt [of key c])
qed

lemma loadItems_DontEmit:
  assumes "config d = Some c" and "\<forall>i \<in> set is. i < length c"
  shows "loadItems DontEmitValueChanged is d =
           Inr (d\<lparr>contents := fold (\<lambda>i m. m(key (c ! i) \<mapsto> property (c ! i))) is (contents d)\<rparr>)"
  using assms
proof (induction "is" arbitrary: d)
  case Nil
  then show ?case by simp
next
  case (Cons i rest)
  let ?d1 = "d\<lparr>contents := (contents d)(key (c ! i) \<mapsto> property (c ! i))\<rparr>"
  have "config ?d1 = Some c" using Cons.prems by simp
  moreover have "\<forall>j \<in> set rest. j < length c" using Cons.prems by simp
  ultimately have "loadItems DontEmitValueChanged rest ?d1 =
      Inr (?d1\<lparr>contents := fold (\<lambda>i m. m(key (c ! i) \<mapsto> property (c ! i))) rest (contents ?d1)\<rparr>)"
    by (rule Cons.IH)
  with Cons.prems show ?case by (simp add: Let_def del: fun_upd_apply)
qed

lemma fold_nth_upt: "fold (\<lambda>i. f (c ! i)) [0..<length c] m = fold f c m"
proof -
  have "fold f (map (\<lambda>i. c ! i) [0..<length c]) m = fold (f \<circ> (\<lambda>i. c ! i)) [0..<length c] m"
    by (simp only: fold_map)
  then show ?thesis by (simp add: map_nth comp_def)
qed

lemma loadConfig_DontEmit:
  assumes "config d = Some c"
  shows "loadConfig DontEmitValueChanged d =
           Inr (d\<lparr>contents := fold (\<lambda>item m. m(key item \<mapsto> property item)) c (contents d)\<rparr>)"
proof -
  have "\<forall>i \<in> set [0..<length c]. i < length c" by simp
  from loadItems_DontEmit [OF assms this] show ?thesis
    using assms fold_nth_upt [of "\<lambda>item m. m(key item \<mapsto> property item)" c "contents d"]
    by (simp add: loadConfig.simps)
qed

lemma dom_fold_insert:
  "dom (fold (\<lambda>item m. m(key item \<mapsto> property item)) c m) = dom m \<union> key ` set c"
  by (induction c arbitrary: m) auto

lemma fold_insert_other:
  "k \<notin> key ` set c \<Longrightarrow> fold (\<lambda>item m. m(key item \<mapsto> property item)) c m k = m k"
  by (induction c arbitrary: m) auto

lemma fold_insert_distinct:
  "distinct (map key c) \<Longrightarrow> item \<in> set c \<Longrightarrow>
     fold (\<lambda>item m. m(key item \<mapsto> property item)) c m (key item) = Some (property item)"
proof (induction c arbitrary: m)
  case Nil
  then show ?case by simp
next
  case (Cons x xs)
  show ?case
  proof (cases "item = x")
    case True
    from Cons.prems have "key x \<notin> key ` set xs" by simp
    then have "fold (\<lambda>item m. m(key item \<mapsto> property item)) xs (m(key x \<mapsto> property x)) (key x)
                 = (m(key x \<mapsto> property x)) (key x)"
      by (rule fold_insert_other)
    then show ?thesis using True by (simp del: fun_upd_apply) simp
  next
    case False
    with Cons show ?thesis by simp
  qed
qed

lemma fold_insert_last:
  "fold (\<lambda>item m. m(key item \<mapsto> property item)) c m k =
     (case find (\<lambda>item. key item = k) (rev c) of
        None \<Rightarrow> m k
      | Some item \<Rightarrow> Some (property item))"
proof (induction c arbitrary: m rule: rev_induct)
  case Nil
  then show ?case by simp
next
  case (snoc x xs)
  let ?f = "\<lambda>item m. m(key item \<mapsto> property item)"
  have "fold ?f (xs @ [x]) m = (fold ?f xs m)(key x \<mapsto> property x)"
    by (simp del: fun_upd_apply)
  then have "fold ?f (xs @ [x]) m k = (if k = key x then Some (property x) else fold ?f xs m k)"
    by (simp only: fun_upd_apply)
  also have "\<dots> = (case find (\<lambda>item. key item = k) (rev (xs @ [x])) of
        None \<Rightarrow> m k
      | Some item \<Rightarrow> Some (property item))"
    by (simp only: snoc.IH) auto
  finally show ?case .
qed


lemma configChanged_guard: "updatingConfigValue d \<Longrightarrow> configChanged d = Inr d"
  by (simp add: configChanged.simps)


lemma writeConfig_shape:
  assumes "config d = Some c"
  shows "\<exists>d' c'. writeConfig d = Inr d' \<and> config d' = Some c' \<and>
           map key c' = map key c \<and> contents d' = contents d \<and> emitted d' = emitted d"
  using assms by (simp add: writeConfig_def Let_def configChanged_guard comp_def)







lemmas bridge_eval =
  newConfigPropertyMap_def externalChange_def qmlWrite_def loadConfig.simps configChanged.simps
  valueChanged.simps writeConfigValue_closed setProperty_def setWriteFlags_def saveItems_def
  readItems_def dirty_def sampleItem_def Let_def

text \<open>
  Against C1 as stated: two items of one configuration may share a key, and the map then
  holds the value of the later one. Over the items \<open>a = 1\<close> and \<open>a = 2\<close> the constructor
  leaves \<open>a\<close> mapped to 2, which is not the value of the first item.
\<close>

theorem later_item_overwrites:
  "newConfigPropertyMap (Some [sampleItem ''a'' 1, sampleItem ''a'' 2]) = Inr loadedAA \<and>
   contents loadedAA (key (sampleItem ''a'' 1)) = Some (IntV 2) \<and>
   property (sampleItem ''a'' 1) = IntV 1"
  by (simp add: bridge_eval loadedAA_def)

text \<open>
  C1, as amended. A bridge constructed over a configuration holds exactly the keys of the
  configuration's items, each key mapped to the value that the last item of \<^verbatim>\<open>items()\<close>
  with this key has at that moment. So the key of every item is mapped to the value of
  that item when the keys of the items are pairwise distinct. The configuration is left as
  it was, and no \<open>valueChanged\<close> has been emitted.
\<close>

theorem initial_load:
  "\<exists>d. newConfigPropertyMap (Some c) = Inr d \<and> config d = Some c \<and>
      dom (contents d) = set (map key c) \<and> emitted d = [] \<and>
      (\<forall>k. contents d k = map_option property (find (\<lambda>item. key item = k) (rev c))) \<and>
      (distinct (map key c) \<longrightarrow>
         (\<forall>item \<in> set c. contents d (key item) = Some (property item)))"
proof -
  define d where
    "d = \<lparr>config = Some c, updatingConfigValue = False, autosave = True, notify = False,
           contents = fold (\<lambda>item m. m(key item \<mapsto> property item)) c Map.empty,
           emitted = []\<rparr>"
  have run: "newConfigPropertyMap (Some c) = Inr d"
    by (simp add: newConfigPropertyMap_def loadConfig_DontEmit d_def)
  have "dom (contents d) = set (map key c)"
    by (simp add: d_def dom_fold_insert)
  moreover have "\<forall>k. contents d k = map_option property (find (\<lambda>item. key item = k) (rev c))"
    by (simp add: d_def fold_insert_last map_option_case)
  moreover have "distinct (map key c) \<longrightarrow>
      (\<forall>item \<in> set c. contents d (key item) = Some (property item))"
    by (simp add: d_def fold_insert_distinct)
  moreover have "config d = Some c" "emitted d = []"
    by (simp_all add: d_def)
  ultimately show ?thesis using run by blast
qed

theorem initial_load_witness:
  "distinct (map key [sampleItem ''a'' 1, sampleItem ''b'' 2]) \<and>
   (\<exists>d. newConfigPropertyMap (Some [sampleItem ''a'' 1, sampleItem ''b'' 2]) = Inr d \<and>
        dom (contents d) = {''a'', ''b''} \<and> contents d ''a'' = Some (IntV 1) \<and>
        contents d ''b'' = Some (IntV 2) \<and> emitted d = []) \<and>
   (\<exists>d. newConfigPropertyMap (Some [sampleItem ''a'' 1, sampleItem ''a'' 2]) = Inr d \<and>
        dom (contents d) = {''a''} \<and> contents d ''a'' = Some (IntV 2) \<and> emitted d = [])"
proof -
  let ?ab = "[sampleItem ''a'' 1, sampleItem ''b'' 2]"
  let ?aa = "[sampleItem ''a'' 1, sampleItem ''a'' 2]"
  have a: "distinct (map key ?ab)"
    by (simp add: sampleItem_def)
  from initial_load [of ?ab] obtain d where
    d: "newConfigPropertyMap (Some ?ab) = Inr d" "dom (contents d) = set (map key ?ab)"
       "emitted d = []"
       "distinct (map key ?ab) \<longrightarrow> (\<forall>item \<in> set ?ab. contents d (key item) = Some (property item))"
    by blast
  from d(4) a have "contents d (key (sampleItem ''a'' 1)) = Some (property (sampleItem ''a'' 1))"
    "contents d (key (sampleItem ''b'' 2)) = Some (property (sampleItem ''b'' 2))"
    by simp_all
  then have "contents d ''a'' = Some (IntV 1)" "contents d ''b'' = Some (IntV 2)"
    by (simp_all add: sampleItem_def)
  moreover from d(2) have "dom (contents d) = {''a'', ''b''}"
    by (simp add: sampleItem_def)
  ultimately have first:
    "\<exists>d. newConfigPropertyMap (Some ?ab) = Inr d \<and>
        dom (contents d) = {''a'', ''b''} \<and> contents d ''a'' = Some (IntV 1) \<and>
        contents d ''b'' = Some (IntV 2) \<and> emitted d = []"
    using d(1,3) by blast
  from initial_load [of ?aa] obtain e where
    e: "newConfigPropertyMap (Some ?aa) = Inr e" "dom (contents e) = set (map key ?aa)"
       "emitted e = []"
       "\<forall>k. contents e k = map_option property (find (\<lambda>item. key item = k) (rev ?aa))"
    by blast
  from e(4) have "contents e ''a'' =
      map_option property (find (\<lambda>item. key item = ''a'') (rev ?aa))"
    by (rule spec)
  then have "contents e ''a'' = Some (IntV 2)"
    by (simp add: sampleItem_def)
  moreover from e(2) have "dom (contents e) = {''a''}"
    by (simp add: sampleItem_def)
  ultimately have second:
    "\<exists>d. newConfigPropertyMap (Some ?aa) = Inr d \<and>
        dom (contents d) = {''a''} \<and> contents d ''a'' = Some (IntV 2) \<and> emitted d = []"
    using e(1,3) by blast
  from a first second show ?thesis by (intro conjI)
qed

text \<open>
  Against C6 as stated: a reload does not remove a key. The configuration held the item
  \<open>a\<close> when the bridge was constructed and holds the item \<open>b\<close> instead when it announces a
  change: after the reload the map still has the key \<open>a\<close>, which is no item key of the
  configuration.
\<close>

theorem stale_key_after_reload:
  "newConfigPropertyMap (Some [sampleItem ''a'' 1]) = Inr loadedA \<and>
   externalChange [sampleItem ''b'' 2] loadedA = Inr reloadedAB \<and>
   config reloadedAB = Some [sampleItem ''b'' 2] \<and>
   ''a'' \<in> dom (contents reloadedAB) \<and>
   ''a'' \<notin> set (map key [sampleItem ''b'' 2])"
  by (simp add: bridge_eval loadedA_def reloadedAB_def)

text \<open>
  C6, as amended. After the initial load at construction the key set of the map is the set
  of item keys of the configuration. A load only inserts: afterwards the key set of the map
  is its key set before together with the item keys, so no item key is missing, and no key
  is extra exactly when the map held no key outside the item keys before the load. The slot
  of an announced change is such a load when \<open>updatingConfigValue\<close> is not set. The
  write-back of a value, \<open>writeConfig\<close>, \<open>setAutosave\<close> and \<open>setNotify\<close> change neither
  the key set of the map nor the item keys.
\<close>

theorem key_sets:
  assumes "config d = Some c"
  shows "(\<exists>d0. newConfigPropertyMap (Some c) = Inr d0 \<and> config d0 = Some c \<and>
            dom (contents d0) = set (map key c)) \<and>
         (\<exists>d' c'. loadConfig opt d = Inr d' \<and> config d' = Some c' \<and>
            map key c' = map key c \<and>
            dom (contents d') = dom (contents d) \<union> set (map key c) \<and>
            (dom (contents d') = set (map key c')) = (dom (contents d) \<subseteq> set (map key c))) \<and>
         (\<not> updatingConfigValue d \<longrightarrow> configChanged d = loadConfig EmitValueChanged d) \<and>
         (\<exists>d' c'. writeConfigValue k v d = Inr d' \<and> config d' = Some c' \<and>
            map key c' = map key c \<and> dom (contents d') = dom (contents d)) \<and>
         (\<exists>d' c'. writeConfig d = Inr d' \<and> config d' = Some c' \<and>
            map key c' = map key c \<and> dom (contents d') = dom (contents d)) \<and>
         config (setAutosave a d) = config d \<and> contents (setAutosave a d) = contents d \<and>
         config (setNotify n d) = config d \<and> contents (setNotify n d) = contents d"
proof -
  have "\<exists>d0. newConfigPropertyMap (Some c) = Inr d0 \<and> config d0 = Some c \<and>
            dom (contents d0) = set (map key c)"
    by (simp add: newConfigPropertyMap_def loadConfig_DontEmit dom_fold_insert)
  moreover from loadConfig_keys [OF assms, of opt] obtain d' c' where
    l: "loadConfig opt d = Inr d'" "config d' = Some c'" "map key c' = map key c"
       "dom (contents d') = dom (contents d) \<union> set (map key c)"
    by blast
  have "(dom (contents d') = set (map key c')) = (dom (contents d) \<subseteq> set (map key c))"
    using l(3,4) by auto
  with l have "\<exists>d' c'. loadConfig opt d = Inr d' \<and> config d' = Some c' \<and>
            map key c' = map key c \<and>
            dom (contents d') = dom (contents d) \<union> set (map key c) \<and>
            (dom (contents d') = set (map key c')) = (dom (contents d) \<subseteq> set (map key c))"
    by blast
  moreover have "\<not> updatingConfigValue d \<longrightarrow> configChanged d = loadConfig EmitValueChanged d"
    by (simp add: configChanged.simps)
  moreover from writeConfigValue_shape [OF assms, of k v]
  have "\<exists>d' c'. writeConfigValue k v d = Inr d' \<and> config d' = Some c' \<and>
            map key c' = map key c \<and> dom (contents d') = dom (contents d)"
    by auto
  moreover from writeConfig_shape [OF assms]
  have "\<exists>d' c'. writeConfig d = Inr d' \<and> config d' = Some c' \<and>
            map key c' = map key c \<and> dom (contents d') = dom (contents d)"
    by auto
  moreover have "config (setAutosave a d) = config d \<and> contents (setAutosave a d) = contents d \<and>
         config (setNotify n d) = config d \<and> contents (setNotify n d) = contents d"
    by (simp add: setAutosave_def setNotify_def)
  ultimately show ?thesis by blast
qed

theorem key_sets_witness:
  "config loadedA = Some [sampleItem ''a'' 1] \<and>
   (\<exists>d'. loadConfig EmitValueChanged loadedA = Inr d' \<and> dom (contents d') = {''a''}) \<and>
   (\<exists>d'. writeConfigValue ''a'' (IntV 2) loadedA = Inr d' \<and> dom (contents d') = {''a''})"
proof -
  have a: "config loadedA = Some [sampleItem ''a'' 1]" by (simp add: loadedA_def)
  note ks = key_sets [OF a, of EmitValueChanged "''a''" "IntV 2" True True]
  have dk: "dom (contents loadedA) = {''a''}" "set (map key [sampleItem ''a'' 1]) = {''a''}"
    by (simp_all add: loadedA_def sampleItem_def)
  from ks have "\<exists>d'. loadConfig EmitValueChanged loadedA = Inr d' \<and>
      dom (contents d') = dom (contents loadedA) \<union> set (map key [sampleItem ''a'' 1])"
    by blast
  moreover from ks have "\<exists>d'. writeConfigValue ''a'' (IntV 2) loadedA = Inr d' \<and>
      dom (contents d') = dom (contents loadedA)"
    by blast
  ultimately show ?thesis using a dk by simp
qed




text \<open>
  C9 says that with a null configuration pointer every operation is a safe no-op. The code
  departs from it: constructing a bridge over a null pointer gives an empty map, and in any
  state whose configuration pointer is null \<open>loadConfig\<close> and \<open>writeConfig\<close> return at
  their null check and change nothing, but \<open>writeConfigValue\<close> and \<open>isImmutable\<close> have no
  such check and call \<^verbatim>\<open>findItem\<close> through the null pointer, and so does a value written
  from QML, whose \<open>valueChanged\<close> runs \<open>writeConfigValue\<close>.
\<close>

theorem null_configuration:
  "newConfigPropertyMap None =
     Inr \<lparr>config = None, updatingConfigValue = False, autosave = True, notify = False,
          contents = Map.empty, emitted = []\<rparr> \<and>
   loadConfig opt (d\<lparr>config := None\<rparr>) = Inr (d\<lparr>config := None\<rparr>) \<and>
   writeConfig (d\<lparr>config := None\<rparr>) = Inr (d\<lparr>config := None\<rparr>) \<and>
   writeConfigValue k v (d\<lparr>config := None\<rparr>) = Inl NullDereference \<and>
   qmlWrite k v (d\<lparr>config := None\<rparr>) = Inl NullDereference \<and>
   isImmutable (d\<lparr>config := None\<rparr>) k = Inl NullDereference"
  by (simp add: newConfigPropertyMap_def loadConfig.simps writeConfig_def qmlWrite_def
      valueChanged.simps writeConfigValue_closed isImmutable_def)

end
